theory Spec2Isabelle
  imports Main "HOL-Library.AList" "HOL-Library.Sublist"
begin

section \<open>The area router of the processor API (api/routers/areas.py)\<close>

text \<open>
  The router reads and writes two stores: the section-indexed configuration store
  (sections \<open>Area_0\<close>, \<open>Area_1\<close>, ..., \<open>Source_0\<close>, ...) and one JSON sidecar file
  per area that holds the occupancy rules. Both are modelled as explicit state. A Python
  dict is an association list kept in insertion order: \<open>AList.update\<close> overwrites a key
  in place or appends a new one, as \<open>d[k] = v\<close> does, and \<open>AList.delete\<close> removes it.
\<close>

subsection \<open>Data\<close>

type_synonym path = "string list"

datatype json =
    JNull
  | JBool bool
  | JInt int
  | JStr string
  | JArr "json list"
  | JObj "(string \<times> json) list"

datatype cfg_value = VStr string | VInt int | VBool bool

type_synonym cfg_section = "(string \<times> cfg_value) list"

type_synonym config_dict = "(string \<times> cfg_section) list"

text \<open>
  A file written by \<open>json.dump\<close> holds a JSON value; a file opened with mode \<open>"w"\<close>
  and closed before anything was dumped holds nothing.
\<close>

datatype file_content = Empty_file | Json_file json

record state =
  config :: config_dict
  files :: "path \<rightharpoonup> file_content"
  dirs :: "path set"

text \<open>
  What the handlers take from their surroundings: the two environment variables,
  \<open>get_config().get_area_config_path\<close>, whose code is not part of this module, and
  the truth value, in a condition, of an \<open>OccupancyRuleListDTO\<close> object that holds
  an empty list. The class is not part of this module either: such an object is true
  unless its class defines its length or its truth value, and false for an empty list
  if it does, so both readings are kept.
\<close>

record env =
  AreaLogDirectory :: "path option"
  AreaConfigDirectory :: "path option"
  get_area_config_path :: "string \<Rightarrow> path"
  empty_rules_truthy :: bool

text \<open>
  The DTO \<open>AreaConfigDTO\<close> and the dict that \<open>map_section_from_config\<close> returns have
  the same fields; \<open>occupancy_rules\<close> is optional.
\<close>

record area_config =
  id' :: string
  name :: string
  violation_threshold :: int
  notify_every_minutes :: int
  emails :: string
  enable_slack_notifications :: bool
  daily_report :: bool
  daily_report_time :: string
  occupancy_threshold :: int
  cameras :: string
  occupancy_rules :: "json list option"

record camera =
  camera_id :: string

datatype detail =
    Bad_request string string
  | Area_does_not_exist string
  | Cameras_do_not_exist "string set"

datatype error =
    HTTPException nat detail
  | KeyError string
  | TypeError
  | JSONDecodeError
  | FileNotFoundError path
  | IsADirectoryError path

datatype reply = Reply nat "cfg_section option" | Non_success "cfg_section option"

datatype returned = Area "area_config option" | Handled reply

subsection \<open>Strings\<close>

text \<open>
  \<open>str.upper\<close> on the ASCII letters. A character outside ASCII is several bytes of
  value 128 or more here, none of which is changed, and in Python no string with such
  a character has the reserved token as its upper case, so the comparison with the
  token agrees with Python's.
\<close>

definition upper_char :: "char \<Rightarrow> char" where
  "upper_char c =
     (let n = (of_char c :: nat) in if 97 \<le> n \<and> n \<le> 122 then char_of (n - 32) else c)"

definition upper :: "string \<Rightarrow> string" where
  "upper s = map upper_char s"

text \<open>\<open>s.split(",")\<close>: never empty, \<open>"".split(",") = [""]\<close>.\<close>

fun split_comma :: "string \<Rightarrow> string list" where
  "split_comma [] = [[]]"
| "split_comma (c # cs) =
     (if c = CHR '','' then [] # split_comma cs
      else (case split_comma cs of
              w # ws \<Rightarrow> (c # w) # ws
            | [] \<Rightarrow> [[c]]))"

text \<open>\<open>",".join(xs)\<close>\<close>

fun join_comma :: "string list \<Rightarrow> string" where
  "join_comma [] = []"
| "join_comma [x] = x"
| "join_comma (x # y # ys) = x @ '','' @ join_comma (y # ys)"

text \<open>\<open>str(n)\<close> for a natural number, as the f-string \<open>f"Area_{n}"\<close> formats it.\<close>

definition digit_char :: "nat \<Rightarrow> char" where
  "digit_char d = char_of (48 + d)"

fun str_nat :: "nat \<Rightarrow> string" where
  "str_nat n = (if n < 10 then [digit_char n] else str_nat (n div 10) @ [digit_char (n mod 10)])"

declare str_nat.simps [simp del]

definition area_key :: "nat \<Rightarrow> string" where
  "area_key n = ''Area_'' @ str_nat n"

text \<open>\<open>xs.index(x)\<close>, with None for the ValueError.\<close>

fun index_of :: "'a list \<Rightarrow> 'a \<Rightarrow> nat option" where
  "index_of [] x = None"
| "index_of (y # ys) x = (if y = x then Some 0 else map_option Suc (index_of ys x))"

subsection \<open>Collaborators outside this module\<close>

text \<open>
  Modelled from the spec: the constant \<open>ALL_AREAS\<close> of the module \<open>constants\<close>, the
  reserved "ALL" token.
\<close>

definition ALL_AREAS :: string where
  "ALL_AREAS = ''ALL''"

text \<open>
  Modelled from the spec: \<open>bad_request_serializer\<close> of \<open>api.utils\<close>, which packs the
  message and the error type into the detail of a 400 answer.
\<close>

definition bad_request_serializer :: "string \<Rightarrow> string \<Rightarrow> detail" where
  "bad_request_serializer msg error_type = Bad_request msg error_type"

text \<open>
  Modelled from the spec: \<open>handle_response\<close> of \<open>api.utils\<close>. A failed save is
  answered by the generic non-success reply; it never raises.
\<close>

definition handle_response :: "cfg_section option \<Rightarrow> bool \<Rightarrow> nat \<Rightarrow> reply" where
  "handle_response body success status_code =
     (if success then Reply status_code body else Non_success body)"

text \<open>
  Modelled from the spec: \<open>extract_config\<close> of \<open>api.utils\<close>, the load primitive of the
  config store. Without argument it returns every section, with
  \<open>config_type="areas"\<close> the sections whose name starts with the area marker, with
  \<open>config_type="cameras"\<close> those that start with the source marker.
\<close>

definition extract_config :: "state \<Rightarrow> config_dict" where
  "extract_config s = config s"

text \<open>Modelled from the spec: \<open>extract_config(config_type="areas")\<close>.\<close>

definition extract_config_areas :: "state \<Rightarrow> config_dict" where
  "extract_config_areas s = filter (\<lambda>kv. prefix ''Area_'' (fst kv)) (config s)"

text \<open>Modelled from the spec: \<open>extract_config(config_type="cameras")\<close>.\<close>

definition extract_config_cameras :: "state \<Rightarrow> config_dict" where
  "extract_config_cameras s = filter (\<lambda>kv. prefix ''Source_'' (fst kv)) (config s)"

text \<open>
  Modelled from the spec: \<open>update_config\<close> of \<open>api.utils\<close>, the save primitive. It
  persists the dict it is given and reports success; the reboot flag has no effect on
  the stores. Whether the save succeeds is decided outside this module, so the outcome
  is a parameter; what a failed save leaves in the store is part of that outcome and is
  not constrained.
\<close>

datatype save_outcome = Saved | Save_failed config_dict

definition update_config :: "save_outcome \<Rightarrow> config_dict \<Rightarrow> bool \<Rightarrow> state \<Rightarrow> bool \<times> state" where
  "update_config outcome config_dict reboot_processor s =
     (case outcome of
        Saved \<Rightarrow> (True, s\<lparr>config := config_dict\<rparr>)
      | Save_failed left \<Rightarrow> (False, s\<lparr>config := left\<rparr>))"

text \<open>
  Modelled from the spec: the Area Mapper of \<open>api.utils\<close>
  (\<open>map_to_config_file_format\<close> and \<open>map_section_from_config\<close>). The section keys are
  the field names in camel case (the source reads \<open>area_dict["Id"]\<close>); a missing field
  is defaulted, so the mapping from a section is total.
\<close>

definition map_to_config_file_format :: "area_config \<Rightarrow> cfg_section" where
  "map_to_config_file_format a =
     [(''Id'', VStr (id' a)),
      (''Name'', VStr (name a)),
      (''ViolationThreshold'', VInt (violation_threshold a)),
      (''NotifyEveryMinutes'', VInt (notify_every_minutes a)),
      (''Emails'', VStr (emails a)),
      (''EnableSlackNotifications'', VBool (enable_slack_notifications a)),
      (''DailyReport'', VBool (daily_report a)),
      (''DailyReportTime'', VStr (daily_report_time a)),
      (''OccupancyThreshold'', VInt (occupancy_threshold a)),
      (''Cameras'', VStr (cameras a))]"

definition str_field :: "cfg_section \<Rightarrow> string \<Rightarrow> string" where
  "str_field sec k = (case map_of sec k of Some (VStr v) \<Rightarrow> v | _ \<Rightarrow> [])"

definition int_field :: "cfg_section \<Rightarrow> string \<Rightarrow> int" where
  "int_field sec k = (case map_of sec k of Some (VInt v) \<Rightarrow> v | _ \<Rightarrow> - 1)"

definition bool_field :: "cfg_section \<Rightarrow> string \<Rightarrow> bool" where
  "bool_field sec k = (case map_of sec k of Some (VBool v) \<Rightarrow> v | _ \<Rightarrow> False)"

text \<open>Modelled from the spec: the section-to-area direction of the mapper, with the defaults.\<close>

definition area_of_section :: "cfg_section \<Rightarrow> area_config" where
  "area_of_section sec =
     \<lparr>id' = str_field sec ''Id'',
      name = str_field sec ''Name'',
      violation_threshold = int_field sec ''ViolationThreshold'',
      notify_every_minutes = int_field sec ''NotifyEveryMinutes'',
      emails = str_field sec ''Emails'',
      enable_slack_notifications = bool_field sec ''EnableSlackNotifications'',
      daily_report = bool_field sec ''DailyReport'',
      daily_report_time = str_field sec ''DailyReportTime'',
      occupancy_threshold = int_field sec ''OccupancyThreshold'',
      cameras = str_field sec ''Cameras'',
      occupancy_rules = None\<rparr>"

text \<open>Modelled from the spec: \<open>map_section_from_config(x, config)\<close>, the area of the section named \<open>x\<close>.\<close>

definition map_section_from_config :: "string \<Rightarrow> config_dict \<Rightarrow> area_config" where
  "map_section_from_config x config_dict =
     area_of_section (case map_of config_dict x of Some sec \<Rightarrow> sec | None \<Rightarrow> [])"

text \<open>
  Modelled from the spec: \<open>map_camera\<close> and \<open>get_cameras\<close> of the cameras router, the
  camera-listing service. Only the id of a camera is used by this module.
\<close>

definition map_camera :: "string \<Rightarrow> config_dict \<Rightarrow> camera" where
  "map_camera x config_dict =
     \<lparr>camera_id = str_field (case map_of config_dict x of Some sec \<Rightarrow> sec | None \<Rightarrow> []) ''Id''\<rparr>"

text \<open>Modelled from the spec: \<open>get_cameras()\<close>, the cameras of the source sections in store order.\<close>

definition get_cameras :: "state \<Rightarrow> camera list" where
  "get_cameras s =
     (let config = extract_config_cameras s
      in map (\<lambda>x. map_camera x config) (map fst config))"

text \<open>
  Modelled from the spec: \<open>get_areas\<close> and \<open>get_video_sources\<close> of the config object
  that \<open>get_config()\<close> returns: the stored areas and the stored cameras, in store order.
\<close>

definition config_get_areas :: "state \<Rightarrow> area_config list" where
  "config_get_areas s =
     (let config = extract_config_areas s
      in map (\<lambda>x. map_section_from_config x config) (map fst config))"

text \<open>Modelled from the spec: \<open>get_config().get_video_sources()\<close>.\<close>

definition config_get_video_sources :: "state \<Rightarrow> camera list" where
  "config_get_video_sources s = get_cameras s"

text \<open>
  Modelled from the spec: \<open>reestructure_areas\<close> of \<open>api.utils\<close>, which renumbers the
  area sections contiguously from zero, keeping their relative order; the other
  sections are left as they are.
\<close>

fun renumber_from :: "nat \<Rightarrow> config_dict \<Rightarrow> config_dict" where
  "renumber_from k [] = []"
| "renumber_from k (kv # rest) =
     (if prefix ''Area_'' (fst kv) then (area_key k, snd kv) # renumber_from (Suc k) rest
      else kv # renumber_from k rest)"

text \<open>Modelled from the spec: \<open>reestructure_areas(config_dict)\<close>, the renumbering from zero.\<close>

definition reestructure_areas :: "config_dict \<Rightarrow> config_dict" where
  "reestructure_areas config_dict = renumber_from 0 config_dict"

text \<open>
  Modelled from the spec: \<open>OccupancyRuleListDTO\<close>. The rules of a payload are an
  optional list; \<open>to_store_json()["occupancy_rules"]\<close> is the JSON array of the rules
  and \<open>from_store_json\<close> reads it back (no rules when the key is missing). The
  handlers test the value with \<open>if occupancy_rules:\<close>: a payload without the field
  gives \<open>None\<close>, which is false; an object with at least one rule is true; for an
  object with an empty list the truth value is the one the surroundings give.
\<close>

definition rules_truthy :: "env \<Rightarrow> json list \<Rightarrow> bool" where
  "rules_truthy env present = (present \<noteq> [] \<or> empty_rules_truthy env)"

definition to_store_json :: "json list \<Rightarrow> json" where
  "to_store_json rules = JArr rules"

text \<open>Modelled from the spec: \<open>OccupancyRuleListDTO.from_store_json\<close>.\<close>

definition from_store_json :: "json \<Rightarrow> json list" where
  "from_store_json rules_data =
     (case rules_data of
        JObj kvs \<Rightarrow> (case map_of kvs ''occupancy_rules'' of Some (JArr rules) \<Rightarrow> rules | _ \<Rightarrow> [])
      | _ \<Rightarrow> [])"

subsection \<open>The file system\<close>

text \<open>
  A path is its list of components; the empty list is the directory the paths start
  from, which always exists. Directories are a set of paths, regular files a map from
  paths to contents. Permission errors and a regular file in the place of a directory
  are outside the model.
\<close>

definition dirname :: "path \<Rightarrow> path" where
  "dirname p = butlast p"

definition is_dir :: "state \<Rightarrow> path \<Rightarrow> bool" where
  "is_dir s p = (p = [] \<or> p \<in> dirs s)"

definition path_exists :: "state \<Rightarrow> path \<Rightarrow> bool" where
  "path_exists s p = (files s p \<noteq> None \<or> is_dir s p)"

text \<open>\<open>Path(d).mkdir(parents=True, exist_ok=True)\<close>\<close>

definition mkdir_parents :: "path \<Rightarrow> state \<Rightarrow> state" where
  "mkdir_parents d s = s\<lparr>dirs := dirs s \<union> set (prefixes d)\<rparr>"

text \<open>\<open>with open(p, "r") as f: json.load(f)\<close>\<close>

definition json_load :: "state \<Rightarrow> path \<Rightarrow> error + json" where
  "json_load s p =
     (case files s p of
        Some Empty_file \<Rightarrow> Inl JSONDecodeError
      | Some (Json_file j) \<Rightarrow> Inr j
      | None \<Rightarrow> if is_dir s p then Inl (IsADirectoryError p) else Inl (FileNotFoundError p))"

text \<open>\<open>open(p, "w")\<close> truncates the file before the body of the \<open>with\<close> runs.\<close>

definition open_w :: "path \<Rightarrow> state \<Rightarrow> state" where
  "open_w p s = s\<lparr>files := (files s)(p \<mapsto> Empty_file)\<rparr>"

definition json_dump :: "json \<Rightarrow> path \<Rightarrow> state \<Rightarrow> state" where
  "json_dump data p s = s\<lparr>files := (files s)(p \<mapsto> Json_file data)\<rparr>"

text \<open>\<open>shutil.rmtree(d)\<close> raises when the directory is missing.\<close>

definition rmtree :: "path \<Rightarrow> state \<Rightarrow> error + state" where
  "rmtree d s =
     (if is_dir s d
      then Inr (s\<lparr>dirs := Set.filter (\<lambda>p. \<not> prefix d p) (dirs s),
                  files := (\<lambda>p. if prefix d p then None else files s p)\<rparr>)
      else Inl (FileNotFoundError d))"

text \<open>\<open>os.path.join(os.getenv(v), ...)\<close> raises TypeError when the variable is unset.\<close>

definition path_join :: "path option \<Rightarrow> path \<Rightarrow> error + path" where
  "path_join base rest = (case base of None \<Rightarrow> Inl TypeError | Some b \<Rightarrow> Inr (b @ rest))"

text \<open>\<open>data[k] = v\<close> and \<open>del data[k]\<close> on a value that \<open>json.load\<close> returned.\<close>

definition setitem :: "json \<Rightarrow> string \<Rightarrow> json \<Rightarrow> error + json" where
  "setitem data k v =
     (case data of JObj kvs \<Rightarrow> Inr (JObj (AList.update k v kvs)) | _ \<Rightarrow> Inl TypeError)"

definition delitem :: "json \<Rightarrow> string \<Rightarrow> error + json" where
  "delitem data k =
     (case data of
        JObj kvs \<Rightarrow>
          (if k \<in> set (map fst kvs) then Inr (JObj (AList.delete k kvs)) else Inl (KeyError k))
      | _ \<Rightarrow> Inl TypeError)"

text \<open>\<open>d.pop(k)\<close> on the config dict.\<close>

definition pop :: "string \<Rightarrow> config_dict \<Rightarrow> error + config_dict" where
  "pop k d = (if k \<in> set (map fst d) then Inr (AList.delete k d) else Inl (KeyError k))"

subsection \<open>The occupancy rule store\<close>

definition set_occupancy_rules :: "env \<Rightarrow> string \<Rightarrow> json list \<Rightarrow> state \<Rightarrow> (error + unit) \<times> state" where
  "set_occupancy_rules env area_id rules s =
     (let area_config_path = get_area_config_path env area_id;
          s1 = mkdir_parents (dirname area_config_path) s
      in case (if path_exists s1 area_config_path then json_load s1 area_config_path
               else Inr (JObj [])) of
           Inl e \<Rightarrow> (Inl e, s1)
         | Inr data \<Rightarrow>
             (let s2 = open_w area_config_path s1
              in case setitem data ''occupancy_rules'' (to_store_json rules) of
                   Inl e \<Rightarrow> (Inl e, s2)
                 | Inr data' \<Rightarrow> (Inr (), json_dump data' area_config_path s2)))"

definition delete_area_occupancy_rules :: "env \<Rightarrow> string \<Rightarrow> state \<Rightarrow> (error + reply option) \<times> state" where
  "delete_area_occupancy_rules env area_id s =
     (let area_config_path = get_area_config_path env area_id
      in if path_exists s area_config_path
         then (case json_load s area_config_path of
                 Inl e \<Rightarrow> (Inl e, s)
               | Inr data \<Rightarrow>
                   (let s1 = open_w area_config_path s
                    in case delitem data ''occupancy_rules'' of
                         Inl e \<Rightarrow> (Inl e, s1)
                       | Inr data' \<Rightarrow> (Inr None, json_dump data' area_config_path s1)))
         else (Inr (Some (handle_response None False 204)), s))"

definition get_area_occupancy_rules :: "env \<Rightarrow> string \<Rightarrow> state \<Rightarrow> error + json list" where
  "get_area_occupancy_rules env area_id s =
     (let areas = config_get_areas s
      in case find (\<lambda>area. id' area = area_id) areas of
           None \<Rightarrow> Inl (HTTPException 404 (Area_does_not_exist area_id))
         | Some area \<Rightarrow>
             (let area_config_path = get_area_config_path env (id' area)
              in if \<not> path_exists s area_config_path then Inr []
                 else (case json_load s area_config_path of
                         Inl e \<Rightarrow> Inl e
                       | Inr rules_data \<Rightarrow> Inr (from_store_json rules_data))))"


subsection \<open>The handlers\<close>

definition get_areas :: "state \<Rightarrow> area_config list" where
  "get_areas s =
     (let config = extract_config_areas s
      in map (\<lambda>x. map_section_from_config x config) (map fst config))"

definition list_areas :: "state \<Rightarrow> area_config list" where
  "list_areas s = get_areas s"

definition get_all_cameras_ids :: "state \<Rightarrow> string" where
  "get_all_cameras_ids s =
     (let ids_list = map camera_id (get_cameras s) in join_comma ids_list)"

definition all_cameras_area :: "state \<Rightarrow> area_config" where
  "all_cameras_area s =
     \<lparr>id' = ALL_AREAS,
      name = ALL_AREAS,
      violation_threshold = - 1,
      notify_every_minutes = - 1,
      emails = [],
      enable_slack_notifications = False,
      daily_report = False,
      daily_report_time = ''N/A'',
      occupancy_threshold = - 1,
      cameras = get_all_cameras_ids s,
      occupancy_rules = None\<rparr>"

definition get_area :: "env \<Rightarrow> string \<Rightarrow> state \<Rightarrow> error + area_config" where
  "get_area env area_id s =
     (if upper area_id = ALL_AREAS then Inr (all_cameras_area s)
      else (case find (\<lambda>area. id' area = area_id) (get_areas s) of
              None \<Rightarrow> Inl (HTTPException 404 (Area_does_not_exist area_id))
            | Some area \<Rightarrow>
                (case get_area_occupancy_rules env (id' area) s of
                   Inl e \<Rightarrow> Inl e
                 | Inr rules \<Rightarrow> Inr (area\<lparr>occupancy_rules := Some rules\<rparr>))))"

text \<open>
  \<open>create_area\<close> and \<open>edit_area\<close> are each written in two parts: the checks, and
  the statements that follow the last check (from \<open>occupancy_rules = ...\<close> to the
  \<open>return\<close>).
\<close>

definition create_area_persist ::
  "env \<Rightarrow> save_outcome \<Rightarrow> area_config \<Rightarrow> area_config list \<Rightarrow> bool \<Rightarrow> state \<Rightarrow>
     (error + returned) \<times> state" where
  "create_area_persist env outcome new_area areas reboot_processor s =
     (let rules = occupancy_rules new_area;
          new_area = new_area\<lparr>occupancy_rules := None\<rparr>;
          area_dict = map_to_config_file_format new_area;
          config_dict = AList.update (area_key (length areas)) area_dict (extract_config s);
          (success, s1) = update_config outcome config_dict reboot_processor s;
          (r, s2) =
            (case rules of
               Some present \<Rightarrow>
                 if rules_truthy env present
                 then set_occupancy_rules env (id' new_area) present s1
                 else (Inr (), s1)
             | None \<Rightarrow> (Inr (), s1))
      in case r of
           Inl e \<Rightarrow> (Inl e, s2)
         | Inr _ \<Rightarrow>
             if \<not> success
             then (Inr (Handled (handle_response (Some area_dict) success 201)), s2)
             else
               (case path_join (AreaLogDirectory env) [id' new_area, ''occupancy_log''] of
                  Inl e \<Rightarrow> (Inl e, s2)
                | Inr area_directory \<Rightarrow>
                    (let s3 = mkdir_parents area_directory s2
                     in case path_join (AreaConfigDirectory env) [id' new_area] of
                          Inl e \<Rightarrow> (Inl e, s3)
                        | Inr area_config_directory \<Rightarrow>
                            (let s4 = mkdir_parents area_config_directory s3
                             in (Inr (Area (find
                                   (\<lambda>area. Some (VStr (id' area)) = map_of area_dict ''Id'')
                                   (get_areas s4))), s4)))))"

definition create_area ::
  "env \<Rightarrow> save_outcome \<Rightarrow> area_config \<Rightarrow> bool \<Rightarrow> state \<Rightarrow> (error + returned) \<times> state" where
  "create_area env outcome new_area reboot_processor s =
     (let areas = config_get_areas s
      in if id' new_area \<in> set (map id' areas)
         then (Inl (HTTPException 400
                 (bad_request_serializer ''Area already exists'' ''config duplicated area'')), s)
         else if upper (id' new_area) = ALL_AREAS
         then (Inl (HTTPException 400
                 (bad_request_serializer ''Area with ID: 'ALL' is not valid.'' ''Invalid ID'')), s)
         else
           (let camera_ids = map camera_id (config_get_video_sources s)
            in if \<not> list_all (\<lambda>x. x \<in> set camera_ids) (split_comma (cameras new_area))
               then (let non_existent_cameras =
                           set (split_comma (cameras new_area)) - set camera_ids
                     in (Inl (HTTPException 404 (Cameras_do_not_exist non_existent_cameras)), s))
               else create_area_persist env outcome new_area areas reboot_processor s))"

definition edit_area_persist ::
  "env \<Rightarrow> save_outcome \<Rightarrow> string \<Rightarrow> area_config \<Rightarrow> nat \<Rightarrow> config_dict \<Rightarrow> bool \<Rightarrow> state \<Rightarrow>
     (error + returned) \<times> state" where
  "edit_area_persist env outcome area_id edited_area index config_dict reboot_processor s =
     (let rules = occupancy_rules edited_area;
          edited_area = edited_area\<lparr>occupancy_rules := None\<rparr>;
          area_dict = map_to_config_file_format edited_area;
          config_dict = AList.update (area_key index) area_dict config_dict;
          (success, s1) = update_config outcome config_dict reboot_processor s;
          deleted =
            (case delete_area_occupancy_rules env area_id s1 of
               (Inl e, s') \<Rightarrow> (Inl e, s')
             | (Inr _, s') \<Rightarrow> (Inr (), s'));
          (r, s2) =
            (case rules of
               Some present \<Rightarrow>
                 if rules_truthy env present
                 then set_occupancy_rules env (id' edited_area) present s1
                 else deleted
             | None \<Rightarrow> deleted)
      in case r of
           Inl e \<Rightarrow> (Inl e, s2)
         | Inr _ \<Rightarrow>
             if \<not> success
             then (Inr (Handled (handle_response (Some area_dict) success 200)), s2)
             else (Inr (Area (find (\<lambda>area. id' area = area_id) (get_areas s2))), s2))"

definition edit_area ::
  "env \<Rightarrow> save_outcome \<Rightarrow> string \<Rightarrow> area_config \<Rightarrow> bool \<Rightarrow> state \<Rightarrow> (error + returned) \<times> state" where
  "edit_area env outcome area_id edited_area reboot_processor s =
     (if upper area_id = ALL_AREAS
      then (Inl (HTTPException 400
              (bad_request_serializer ''Area with ID: 'ALL' cannot be edited.'' ''Invalid ID'')), s)
      else
        (let edited_area = edited_area\<lparr>id' := area_id\<rparr>;
             config_dict = extract_config s;
             area_names = filter (prefix ''Area_'') (map fst config_dict);
             areas = map (\<lambda>x. map_section_from_config x config_dict) area_names;
             areas_ids = map id' areas
         in case index_of areas_ids area_id of
              None \<Rightarrow> (Inl (HTTPException 404 (Area_does_not_exist area_id)), s)
            | Some index \<Rightarrow>
                (let source_names = filter (prefix ''Source_'') (map fst config_dict);
                     sources = map (\<lambda>x. map_camera x config_dict) source_names;
                     camera_ids = map camera_id sources
                 in if \<not> list_all (\<lambda>x. x \<in> set camera_ids) (split_comma (cameras edited_area))
                    then (let non_existent_cameras =
                                set (split_comma (cameras edited_area)) - set camera_ids
                          in (Inl (HTTPException 404 (Cameras_do_not_exist non_existent_cameras)), s))
                    else edit_area_persist env outcome area_id edited_area index config_dict
                           reboot_processor s)))"

definition delete_area ::
  "env \<Rightarrow> save_outcome \<Rightarrow> string \<Rightarrow> bool \<Rightarrow> state \<Rightarrow> (error + reply) \<times> state" where
  "delete_area env outcome area_id reboot_processor s =
     (if upper area_id = ALL_AREAS
      then (Inl (HTTPException 400
              (bad_request_serializer ''Area with ID: 'ALL' cannot be deleted.'' ''Invalid ID'')), s)
      else
        (let config_dict = extract_config s;
             areas_name = filter (prefix ''Area_'') (map fst config_dict);
             areas = map (\<lambda>x. map_section_from_config x config_dict) areas_name;
             areas_ids = map id' areas
         in case index_of areas_ids area_id of
              None \<Rightarrow> (Inl (HTTPException 404 (Area_does_not_exist area_id)), s)
            | Some index \<Rightarrow>
                (case pop (area_key index) config_dict of
                   Inl e \<Rightarrow> (Inl e, s)
                 | Inr config_dict \<Rightarrow>
                     (let config_dict = reestructure_areas config_dict;
                          (success, s1) = update_config outcome config_dict reboot_processor s
                      in case delete_area_occupancy_rules env area_id s1 of
                           (Inl e, s2) \<Rightarrow> (Inl e, s2)
                         | (Inr _, s2) \<Rightarrow>
                             (case path_join (AreaLogDirectory env) [area_id] of
                                Inl e \<Rightarrow> (Inl e, s2)
                              | Inr area_directory \<Rightarrow>
                                  (case rmtree area_directory s2 of
                                     Inl e \<Rightarrow> (Inl e, s2)
                                   | Inr s3 \<Rightarrow>
                                       (case path_join (AreaConfigDirectory env) [area_id] of
                                          Inl e \<Rightarrow> (Inl e, s3)
                                        | Inr area_config_directory \<Rightarrow>
                                            (case rmtree area_config_directory s3 of
                                               Inl e \<Rightarrow> (Inl e, s3)
                                             | Inr s4 \<Rightarrow>
                                                 (Inr (handle_response None success 204), s4)))))))))"

subsection \<open>The numbering of the area sections\<close>

text \<open>
  The names of the area sections, in store order, and the invariant of the data model:
  they are \<open>Area_0\<close>, \<open>Area_1\<close>, ... without a gap, in this order.
\<close>

definition area_names :: "config_dict \<Rightarrow> string list" where
  "area_names config_dict = filter (prefix ''Area_'') (map fst config_dict)"

definition areas_contiguous :: "config_dict \<Rightarrow> bool" where
  "areas_contiguous config_dict =
     (area_names config_dict = map area_key [0..<length (area_names config_dict)])"

subsection \<open>A small installation, used to run the handlers\<close>

definition env0 :: env where
  "env0 =
     \<lparr>AreaLogDirectory = Some [''logs''],
      AreaConfigDirectory = Some [''cfg''],
      get_area_config_path = (\<lambda>area_id. [''cfg'', area_id, ''config.json'']),
      empty_rules_truthy = True\<rparr>"

definition kitchen :: area_config where
  "kitchen =
     \<lparr>id' = ''A0'', name = ''Kitchen'', violation_threshold = 5, notify_every_minutes = 10,
      emails = [], enable_slack_notifications = False, daily_report = False,
      daily_report_time = ''06:00'', occupancy_threshold = 20, cameras = ''cam0'',
      occupancy_rules = None\<rparr>"

definition hall :: area_config where
  "hall = kitchen\<lparr>id' := ''A1'', name := ''Hall'', cameras := ''cam0,cam1''\<rparr>"

definition yard :: area_config where
  "yard = kitchen\<lparr>id' := ''A2'', name := ''Yard'', cameras := ''cam1''\<rparr>"

definition rule0 :: json where
  "rule0 = JObj [(''days'', JArr [JBool True]), (''max_occupancy'', JInt 12)]"

definition store0 :: state where
  "store0 =
     \<lparr>config =
        [(''App'', [(''Resolution'', VStr ''640,480'')]),
         (''Area_0'', map_to_config_file_format kitchen),
         (''Source_0'', [(''Id'', VStr ''cam0'')]),
         (''Area_1'', map_to_config_file_format hall),
         (''Source_1'', [(''Id'', VStr ''cam1'')])],
      files =
        [[''cfg'', ''A0'', ''config.json''] \<mapsto>
           Json_file (JObj [(''note'', JStr ''keep''), (''occupancy_rules'', JArr [rule0])])],
      dirs =
        {[''logs''], [''logs'', ''A0''], [''logs'', ''A1''],
         [''cfg''], [''cfg'', ''A0''], [''cfg'', ''A1'']}\<rparr>"



section \<open>Properties\<close>

subsection \<open>Section names\<close>

lemma digit_char_inj:
  assumes "d < 10" and "e < 10" and "digit_char d = digit_char e"
  shows "d = e"
proof -
  from assms(3) have "(of_char (digit_char d) :: nat) = of_char (digit_char e)"
    by simp
  with assms(1,2) show ?thesis
    by (simp add: digit_char_def)
qed

lemma str_nat_small: "n < 10 \<Longrightarrow> str_nat n = [digit_char n]"
  by (subst str_nat.simps) simp

lemma str_nat_large: "\<not> n < 10 \<Longrightarrow> str_nat n = str_nat (n div 10) @ [digit_char (n mod 10)]"
  by (subst str_nat.simps) simp

lemma str_nat_nonempty: "str_nat n \<noteq> []"
  by (subst str_nat.simps) simp

lemma str_nat_inj: "str_nat m = str_nat n \<Longrightarrow> m = n"
proof (induction m arbitrary: n rule: str_nat.induct)
  case (1 m)
  show ?case
  proof (cases "m < 10")
    case m: True
    show ?thesis
    proof (cases "n < 10")
      case True
      with m "1.prems" show ?thesis
        by (simp add: str_nat_small digit_char_inj)
    next
      case False
      with m "1.prems" str_nat_nonempty [of "n div 10"] show ?thesis
        by (simp add: str_nat_small str_nat_large)
    qed
  next
    case m: False
    show ?thesis
    proof (cases "n < 10")
      case True
      with m "1.prems" str_nat_nonempty [of "m div 10"] show ?thesis
        by (simp add: str_nat_small str_nat_large)
    next
      case False
      with m "1.prems" have a: "str_nat (m div 10) = str_nat (n div 10)"
        and b: "digit_char (m mod 10) = digit_char (n mod 10)"
        by (simp_all add: str_nat_large)
      from "1.IH" [OF m a] have "m div 10 = n div 10" .
      moreover from b have "m mod 10 = n mod 10"
        by (simp add: digit_char_inj)
      ultimately show ?thesis
        by (metis div_mult_mod_eq)
    qed
  qed
qed

lemma area_key_inj: "area_key m = area_key n \<Longrightarrow> m = n"
  by (simp add: area_key_def str_nat_inj)

lemma prefix_area_key: "prefix ''Area_'' (area_key n)"
  by (simp add: area_key_def)

subsection \<open>Reading the store\<close>

lemma map_of_filter_fst: "P k \<Longrightarrow> map_of (filter (\<lambda>kv. P (fst kv)) xs) k = map_of xs k"
  by (induction xs) auto

lemma map_fst_filter_fst: "map fst (filter (\<lambda>kv. P (fst kv)) xs) = filter P (map fst xs)"
  by (induction xs) auto

lemma get_areas_conv:
  "get_areas s = map (\<lambda>x. map_section_from_config x (config s)) (area_names (config s))"
  unfolding get_areas_def extract_config_areas_def area_names_def Let_def map_fst_filter_fst
  by (rule map_cong) (auto simp: map_section_from_config_def map_of_filter_fst)

lemma config_get_areas_conv: "config_get_areas s = get_areas s"
  by (simp add: config_get_areas_def get_areas_def)

lemma get_cameras_conv:
  "get_cameras s =
   map (\<lambda>x. map_camera x (config s)) (filter (prefix ''Source_'') (map fst (config s)))"
  unfolding get_cameras_def extract_config_cameras_def Let_def map_fst_filter_fst
  by (rule map_cong) (auto simp: map_camera_def map_of_filter_fst)

lemma index_of_None_iff: "index_of xs x = None \<longleftrightarrow> x \<notin> set xs"
  by (induction xs) auto

lemma index_of_SomeD: "index_of xs x = Some i \<Longrightarrow> i < length xs \<and> xs ! i = x"
  by (induction xs arbitrary: i) (auto split: if_splits)

lemma area_of_section_format:
  "area_of_section (map_to_config_file_format a) = a\<lparr>occupancy_rules := None\<rparr>"
  by (simp add: area_of_section_def map_to_config_file_format_def str_field_def int_field_def
      bool_field_def)

subsection \<open>The checks of the handlers\<close>

lemma edit_area_reserved:
  assumes "upper area_id = ALL_AREAS"
  shows "edit_area env outcome area_id edited_area reboot_processor s =
           (Inl (HTTPException 400
              (bad_request_serializer ''Area with ID: 'ALL' cannot be edited.'' ''Invalid ID'')), s)"
  using assms by (simp add: edit_area_def)

lemma edit_area_ids:
  "map id' (map (\<lambda>x. map_section_from_config x (extract_config s))
      (filter (prefix ''Area_'') (map fst (extract_config s)))) = map id' (get_areas s)"
  by (simp add: get_areas_conv area_names_def extract_config_def)

lemma edit_area_camera_ids:
  "map camera_id (map (\<lambda>x. map_camera x (extract_config s))
      (filter (prefix ''Source_'') (map fst (extract_config s)))) = map camera_id (get_cameras s)"
  by (simp add: get_cameras_conv extract_config_def)

lemma edit_area_unknown:
  assumes "upper area_id \<noteq> ALL_AREAS" and "area_id \<notin> set (map id' (get_areas s))"
  shows "edit_area env outcome area_id edited_area reboot_processor s =
           (Inl (HTTPException 404 (Area_does_not_exist area_id)), s)"
proof -
  from assms(2) have "index_of (map id' (get_areas s)) area_id = None"
    by (simp only: index_of_None_iff not_False_eq_True)
  with assms(1) show ?thesis
    unfolding edit_area_def Let_def edit_area_ids by simp
qed

lemma edit_area_cameras:
  assumes "upper area_id \<noteq> ALL_AREAS" and "area_id \<in> set (map id' (get_areas s))"
    and "\<not> set (split_comma (cameras edited_area)) \<subseteq> set (map camera_id (get_cameras s))"
  shows "edit_area env outcome area_id edited_area reboot_processor s =
           (Inl (HTTPException 404 (Cameras_do_not_exist
              (set (split_comma (cameras edited_area)) - set (map camera_id (get_cameras s))))), s)"
proof -
  from assms(2) obtain i where "index_of (map id' (get_areas s)) area_id = Some i"
    using index_of_None_iff [of "map id' (get_areas s)" area_id] by auto
  moreover from assms(3)
  have "\<not> list_all (\<lambda>x. x \<in> set (map camera_id (get_cameras s))) (split_comma (cameras edited_area))"
    by (auto simp: list_all_iff)
  ultimately show ?thesis
    using assms(1) unfolding edit_area_def Let_def edit_area_ids edit_area_camera_ids by simp
qed

lemma edit_area_valid:
  assumes "upper area_id \<noteq> ALL_AREAS" and "index_of (map id' (get_areas s)) area_id = Some i"
    and "set (split_comma (cameras edited_area)) \<subseteq> set (map camera_id (get_cameras s))"
  shows "edit_area env outcome area_id edited_area reboot_processor s =
           edit_area_persist env outcome area_id (edited_area\<lparr>id' := area_id\<rparr>) i (config s)
             reboot_processor s"
proof -
  from assms(3)
  have "list_all (\<lambda>x. x \<in> set (map camera_id (get_cameras s))) (split_comma (cameras edited_area))"
    by (auto simp: list_all_iff)
  with assms(1,2) show ?thesis
    unfolding edit_area_def Let_def edit_area_ids edit_area_camera_ids
    by (simp add: extract_config_def)
qed

lemma create_area_reserved:
  assumes "id' new_area \<notin> set (map id' (get_areas s))" and "upper (id' new_area) = ALL_AREAS"
  shows "create_area env outcome new_area reboot_processor s =
           (Inl (HTTPException 400
              (bad_request_serializer ''Area with ID: 'ALL' is not valid.'' ''Invalid ID'')), s)"
  using assms by (simp add: create_area_def config_get_areas_conv)

lemma create_area_taken:
  assumes "id' new_area \<in> set (map id' (get_areas s))"
  shows "create_area env outcome new_area reboot_processor s =
           (Inl (HTTPException 400
              (bad_request_serializer ''Area already exists'' ''config duplicated area'')), s)"
  using assms by (simp add: create_area_def config_get_areas_conv)

lemma create_area_cameras:
  assumes "id' new_area \<notin> set (map id' (get_areas s))" and "upper (id' new_area) \<noteq> ALL_AREAS"
    and "\<not> set (split_comma (cameras new_area)) \<subseteq> set (map camera_id (get_cameras s))"
  shows "create_area env outcome new_area reboot_processor s =
           (Inl (HTTPException 404 (Cameras_do_not_exist
              (set (split_comma (cameras new_area)) - set (map camera_id (get_cameras s))))), s)"
proof -
  from assms(3)
  have "\<not> list_all (\<lambda>x. x \<in> set (map camera_id (get_cameras s))) (split_comma (cameras new_area))"
    by (auto simp: list_all_iff)
  with assms(1,2) show ?thesis
    unfolding create_area_def Let_def config_get_areas_conv config_get_video_sources_def by simp
qed

lemma create_area_valid:
  assumes "id' new_area \<notin> set (map id' (get_areas s))" and "upper (id' new_area) \<noteq> ALL_AREAS"
    and "set (split_comma (cameras new_area)) \<subseteq> set (map camera_id (get_cameras s))"
  shows "create_area env outcome new_area reboot_processor s =
           create_area_persist env outcome new_area (get_areas s) reboot_processor s"
proof -
  from assms(3)
  have "list_all (\<lambda>x. x \<in> set (map camera_id (get_cameras s))) (split_comma (cameras new_area))"
    by (auto simp: list_all_iff)
  with assms(1,2) show ?thesis
    unfolding create_area_def Let_def config_get_areas_conv config_get_video_sources_def by simp
qed

subsection \<open>The occupancy rule store\<close>

lemma not_exists_after_mkdir:
  assumes "\<not> path_exists s p"
  shows "\<not> path_exists (mkdir_parents (dirname p) s) p"
proof -
  from assms have p: "p \<noteq> []" and d: "p \<notin> dirs s" and f: "files s p = None"
    by (auto simp: path_exists_def is_dir_def)
  have "p \<notin> set (prefixes (butlast p))"
  proof
    assume "p \<in> set (prefixes (butlast p))"
    with p show False
      by (cases p rule: rev_cases) (auto simp: in_set_prefixes dest: prefix_length_le)
  qed
  with p d f show ?thesis
    by (simp add: path_exists_def is_dir_def mkdir_parents_def dirname_def)
qed

lemma is_dir_after_mkdir: "is_dir (mkdir_parents d s) d"
  by (simp add: is_dir_def mkdir_parents_def in_set_prefixes)

lemma set_occupancy_rules_absent:
  assumes "\<not> path_exists s (get_area_config_path env area_id)"
  shows "set_occupancy_rules env area_id rules s =
           (Inr (),
            json_dump (JObj [(''occupancy_rules'', JArr rules)]) (get_area_config_path env area_id)
              (open_w (get_area_config_path env area_id)
                (mkdir_parents (dirname (get_area_config_path env area_id)) s)))"
  using not_exists_after_mkdir [OF assms]
  by (simp add: set_occupancy_rules_def Let_def setitem_def to_store_json_def)

lemma set_occupancy_rules_object:
  assumes "files s (get_area_config_path env area_id) = Some (Json_file (JObj kvs))"
  shows "set_occupancy_rules env area_id rules s =
           (Inr (),
            json_dump (JObj (AList.update ''occupancy_rules'' (JArr rules) kvs))
              (get_area_config_path env area_id)
              (open_w (get_area_config_path env area_id)
                (mkdir_parents (dirname (get_area_config_path env area_id)) s)))"
  using assms
  by (simp add: set_occupancy_rules_def Let_def setitem_def to_store_json_def
      path_exists_def json_load_def mkdir_parents_def)

lemma delete_rules_absent:
  assumes "\<not> path_exists s (get_area_config_path env area_id)"
  shows "delete_area_occupancy_rules env area_id s = (Inr (Some (handle_response None False 204)), s)"
  using assms by (simp add: delete_area_occupancy_rules_def)


lemma delete_rules_key_missing:
  assumes "files s (get_area_config_path env area_id) = Some (Json_file (JObj kvs))"
    and "''occupancy_rules'' \<notin> set (map fst kvs)"
  shows "delete_area_occupancy_rules env area_id s =
           (Inl (KeyError ''occupancy_rules''), open_w (get_area_config_path env area_id) s)"
  using assms
  by (simp add: delete_area_occupancy_rules_def Let_def delitem_def path_exists_def json_load_def)

lemma config_set_occupancy_rules:
  "set_occupancy_rules env area_id rules s = (r, s') \<Longrightarrow> config s' = config s"
  by (auto simp: set_occupancy_rules_def Let_def json_dump_def open_w_def mkdir_parents_def
      split: if_splits sum.splits)

lemma config_delete_rules:
  "delete_area_occupancy_rules env area_id s = (r, s') \<Longrightarrow> config s' = config s"
  by (auto simp: delete_area_occupancy_rules_def Let_def json_dump_def open_w_def
      split: if_splits sum.splits)

lemma dirs_set_occupancy_rules:
  "set_occupancy_rules env area_id rules s = (r, s') \<Longrightarrow>
     dirs s' = dirs s \<union> set (prefixes (butlast (get_area_config_path env area_id)))"
  by (auto simp: set_occupancy_rules_def Let_def json_dump_def open_w_def mkdir_parents_def
      dirname_def split: if_splits sum.splits)

lemma edit_area_persist_config:
  "config (snd (edit_area_persist env Saved area_id a i cfg reboot_processor s)) =
     AList.update (area_key i) (map_to_config_file_format (a\<lparr>occupancy_rules := None\<rparr>)) cfg"
  by (auto simp: edit_area_persist_def Let_def update_config_def
      split: prod.splits sum.splits option.splits list.splits
      dest: config_set_occupancy_rules config_delete_rules)



subsection \<open>After the checks\<close>



lemma listed_after_update:
  assumes "config s' = AList.update (area_key i) (map_to_config_file_format a) cfg"
  shows "\<exists>x \<in> set (get_areas s'). id' x = id' a"
proof -
  have "area_key i \<in> set (map fst (config s'))"
    using dom_update [of "area_key i" "map_to_config_file_format a" cfg] assms by simp
  then have "area_key i \<in> set (area_names (config s'))"
    by (simp add: area_names_def prefix_area_key)
  moreover have "id' (map_section_from_config (area_key i) (config s')) = id' a"
    by (simp add: map_section_from_config_def assms update_conv' area_of_section_format)
  ultimately show ?thesis
    unfolding get_areas_conv by force
qed

lemma find_by_id:
  assumes "\<exists>x \<in> set xs. id' x = k"
  shows "\<exists>x. find (\<lambda>area. id' area = k) xs = Some x \<and> id' x = k"
proof (cases "find (\<lambda>area. id' area = k) xs")
  case None
  with assms show ?thesis
    by (auto simp: find_None_iff)
next
  case (Some x)
  then show ?thesis
    by (auto simp: find_Some_iff)
qed

lemma edit_area_persist_returned:
  assumes "fst (edit_area_persist env outcome area_id a i cfg reboot_processor s) = Inr r"
    and "id' a = area_id"
  shows "(\<exists>x. r = Area (Some x) \<and> id' x = area_id) \<or>
         r = Handled (Non_success (Some (map_to_config_file_format (a\<lparr>occupancy_rules := None\<rparr>))))"
proof (cases outcome)
  case (Save_failed left)
  with assms(1) show ?thesis
    by (auto simp: edit_area_persist_def Let_def update_config_def handle_response_def
        split: prod.splits sum.splits)
next
  case Saved
  let ?s' = "snd (edit_area_persist env Saved area_id a i cfg reboot_processor s)"
  have "config ?s' = AList.update (area_key i) (map_to_config_file_format (a\<lparr>occupancy_rules := None\<rparr>)) cfg"
    by (rule edit_area_persist_config)
  from listed_after_update [OF this] assms(2)
  have "\<exists>x \<in> set (get_areas ?s'). id' x = area_id"
    by simp
  from find_by_id [OF this]
  obtain x where x: "find (\<lambda>area. id' area = area_id) (get_areas ?s') = Some x" "id' x = area_id"
    by blast
  from assms(1) Saved
  have "r = Area (find (\<lambda>area. id' area = area_id) (get_areas ?s'))"
    by (auto simp: edit_area_persist_def Let_def update_config_def
        split: prod.splits sum.splits)
  with x show ?thesis
    by simp
qed






subsection \<open>The numbering invariant\<close>

lemma contiguous_nth:
  assumes "areas_contiguous cfg" and "i < length (area_names cfg)"
  shows "area_names cfg ! i = area_key i"
proof -
  from assms(1) have "area_names cfg ! i = map area_key [0..<length (area_names cfg)] ! i"
    by (simp add: areas_contiguous_def)
  with assms(2) show ?thesis
    by simp
qed

lemma area_names_subset: "set (area_names cfg) \<subseteq> set (map fst cfg)"
  by (auto simp: area_names_def)

lemma length_get_areas: "length (get_areas s) = length (area_names (config s))"
  by (simp add: get_areas_conv)

lemma update_append: "k \<notin> set (map fst al) \<Longrightarrow> AList.update k v al = al @ [(k, v)]"
  by (induction al) auto

lemma distinct_area_keys: "distinct (map area_key [j..<k])"
  by (simp add: distinct_map inj_on_def area_key_inj)

lemma contiguous_distinct: "areas_contiguous cfg \<Longrightarrow> distinct (area_names cfg)"
  by (metis areas_contiguous_def distinct_area_keys)

lemma contiguous_fresh:
  assumes "areas_contiguous cfg"
  shows "area_key (length (area_names cfg)) \<notin> set (map fst cfg)"
proof
  assume "area_key (length (area_names cfg)) \<in> set (map fst cfg)"
  then have "area_key (length (area_names cfg)) \<in> set (area_names cfg)"
    by (simp add: area_names_def prefix_area_key)
  with assms have "area_key (length (area_names cfg)) \<in> set (map area_key [0..<length (area_names cfg)])"
    by (simp add: areas_contiguous_def)
  then show False
    by (auto dest: area_key_inj)
qed

lemma area_names_append:
  "area_names (cfg @ [(area_key n, v)]) = area_names cfg @ [area_key n]"
  by (simp add: area_names_def prefix_area_key)

lemma contiguous_append:
  assumes "areas_contiguous cfg"
  shows "areas_contiguous (cfg @ [(area_key (length (area_names cfg)), v)])"
proof -
  from assms have "area_names cfg = map area_key [0..<length (area_names cfg)]"
    by (simp add: areas_contiguous_def)
  then have "area_names cfg @ [area_key (length (area_names cfg))] =
      map area_key [0..<Suc (length (area_names cfg))]"
    by simp
  then show ?thesis
    by (simp add: areas_contiguous_def area_names_append)
qed

lemma renumber_names:
  "area_names (renumber_from j cfg) = map area_key [j..<j + length (area_names cfg)]"
proof (induction cfg arbitrary: j)
  case Nil
  then show ?case
    by (simp add: area_names_def)
next
  case (Cons kv cfg)
  show ?case
  proof (cases "prefix ''Area_'' (fst kv)")
    case True
    let ?m = "length (area_names cfg)"
    from True have "area_names (renumber_from j (kv # cfg)) =
        area_key j # area_names (renumber_from (Suc j) cfg)"
      by (simp add: area_names_def prefix_area_key)
    also have "\<dots> = area_key j # map area_key [Suc j..<Suc j + ?m]"
      by (simp only: Cons)
    also have "\<dots> = map area_key (j # [Suc j..<Suc (j + ?m)])"
      by simp
    also have "j # [Suc j..<Suc (j + ?m)] = [j..<Suc (j + ?m)]"
      by (rule upt_conv_Cons [symmetric]) simp
    also from True have "Suc (j + ?m) = j + length (area_names (kv # cfg))"
      by (simp add: area_names_def)
    finally show ?thesis .
  next
    case False
    with Cons [of j] show ?thesis
      by (simp add: area_names_def)
  qed
qed

lemma renumber_contents:
  "map snd (filter (\<lambda>kv. prefix ''Area_'' (fst kv)) (renumber_from j cfg)) =
   map snd (filter (\<lambda>kv. prefix ''Area_'' (fst kv)) cfg)"
  by (induction cfg arbitrary: j) (simp_all add: prefix_area_key)

lemma map_of_area_section:
  assumes "distinct (filter P (map fst cfg))" and "(k, v) \<in> set cfg" and "P k"
  shows "map_of cfg k = Some v"
  using assms
proof (induction cfg)
  case Nil
  then show ?case by simp
next
  case (Cons kv cfg)
  show ?case
  proof (cases "fst kv = k")
    case True
    show ?thesis
    proof (cases "kv = (k, v)")
      case True
      then show ?thesis by simp
    next
      case False
      with Cons.prems have "(k, v) \<in> set cfg"
        by simp
      then have "k \<in> set (filter P (map fst cfg))"
        using Cons.prems(3) by force
      with Cons.prems(1,3) True show ?thesis
        by simp
    qed
  next
    case False
    with Cons show ?thesis
      by (cases kv) (auto split: if_splits)
  qed
qed

lemma get_areas_sections:
  assumes "distinct (area_names (config s))"
  shows "get_areas s =
           map (\<lambda>kv. area_of_section (snd kv)) (filter (\<lambda>kv. prefix ''Area_'' (fst kv)) (config s))"
proof -
  have "map (\<lambda>x. map_section_from_config x (config s))
          (map fst (filter (\<lambda>kv. prefix ''Area_'' (fst kv)) (config s))) =
        map (\<lambda>kv. area_of_section (snd kv)) (filter (\<lambda>kv. prefix ''Area_'' (fst kv)) (config s))"
    unfolding map_map
  proof (rule map_cong [OF refl])
    fix kv assume "kv \<in> set (filter (\<lambda>kv. prefix ''Area_'' (fst kv)) (config s))"
    then have "(fst kv, snd kv) \<in> set (config s)" and "prefix ''Area_'' (fst kv)"
      by simp_all
    with assms have "map_of (config s) (fst kv) = Some (snd kv)"
      unfolding area_names_def by (rule map_of_area_section)
    then show "((\<lambda>x. map_section_from_config x (config s)) \<circ> fst) kv = area_of_section (snd kv)"
      by (simp add: map_section_from_config_def)
  qed
  then show ?thesis
    by (simp add: get_areas_conv area_names_def map_fst_filter_fst)
qed

lemma filter_remove_nth:
  assumes "distinct (map fst xs)" and "i < length xs"
  shows "filter (\<lambda>kv. fst kv \<noteq> fst (xs ! i)) xs = take i xs @ drop (Suc i) xs"
  using assms
proof (induction xs arbitrary: i)
  case Nil
  then show ?case by simp
next
  case (Cons x xs)
  show ?case
  proof (cases i)
    case 0
    from Cons.prems(1) have n: "fst x \<notin> fst ` set xs"
      by simp
    have "\<forall>kv \<in> set xs. fst kv \<noteq> fst x"
    proof
      fix kv assume "kv \<in> set xs"
      then have "fst kv \<in> fst ` set xs"
        by (rule imageI)
      with n show "fst kv \<noteq> fst x"
        by metis
    qed
    then have "filter (\<lambda>kv. fst kv \<noteq> fst x) xs = xs"
      by (simp add: filter_id_conv)
    with 0 show ?thesis
      by simp
  next
    case (Suc j)
    with Cons.prems have j: "j < length xs" and d: "distinct (map fst xs)"
      by simp_all
    from j Cons.prems(1) have "fst x \<noteq> fst (xs ! j)"
      by (metis distinct.simps(2) list.simps(9) nth_map nth_mem length_map)
    with Cons.IH [OF d j] Suc show ?thesis
      by simp
  qed
qed

lemma filter_area_delete:
  "filter (\<lambda>kv. prefix ''Area_'' (fst kv)) (AList.delete k cfg) =
   filter (\<lambda>kv. fst kv \<noteq> k) (filter (\<lambda>kv. prefix ''Area_'' (fst kv)) cfg)"
  by (induction cfg) auto

lemma contiguous_update_in_place:
  assumes "areas_contiguous cfg" and "i < length (area_names cfg)"
  shows "area_names (AList.update (area_key i) v cfg) = area_names cfg"
proof -
  from assms have "area_names cfg ! i = area_key i"
    by (rule contiguous_nth)
  moreover from assms(2) have "area_names cfg ! i \<in> set (area_names cfg)"
    by (rule nth_mem)
  ultimately have "area_key i \<in> set (area_names cfg)"
    by simp
  with area_names_subset have "area_key i \<in> set (map fst cfg)"
    by blast
  then show ?thesis
    by (simp add: area_names_def update_keys)
qed

lemma contiguous_delete_renumber:
  assumes c: "areas_contiguous (config s)" and i: "i < length (area_names (config s))"
    and s': "config s' = reestructure_areas (AList.delete (area_key i) (config s))"
  shows "area_names (config s') = map area_key [0..<length (area_names (config s)) - 1]"
    and "get_areas s' = take i (get_areas s) @ drop (Suc i) (get_areas s)"
proof -
  let ?area = "\<lambda>kv :: string \<times> cfg_section. prefix ''Area_'' (fst kv)"
  let ?A = "filter ?area (config s)"
  let ?cfg1 = "AList.delete (area_key i) (config s)"
  have names: "map fst ?A = area_names (config s)"
    unfolding area_names_def by (rule map_fst_filter_fst)
  from c have d: "distinct (map fst ?A)"
    unfolding names by (rule contiguous_distinct)
  have "length (map fst ?A) = length (area_names (config s))"
    by (simp only: names)
  then have lenA: "length ?A = length (area_names (config s))"
    by (simp only: length_map)
  from i have iA: "i < length ?A"
    by (simp only: lenA)
  from c i have "area_names (config s) ! i = area_key i"
    by (rule contiguous_nth)
  then have "map fst ?A ! i = area_key i"
    by (simp only: names)
  with iA have key: "fst (?A ! i) = area_key i"
    by (simp only: nth_map)
  have f1: "filter ?area ?cfg1 = take i ?A @ drop (Suc i) ?A"
    unfolding filter_area_delete key [symmetric] by (rule filter_remove_nth [OF d iA])
  have n1: "area_names ?cfg1 = map fst (filter ?area ?cfg1)"
    unfolding area_names_def by (rule map_fst_filter_fst [symmetric])
  have "length (take i ?A @ drop (Suc i) ?A) = length ?A - 1"
    using iA by simp
  then have l1: "length (area_names ?cfg1) = length (area_names (config s)) - 1"
    unfolding n1 f1 length_map lenA .
  have "area_names (config s') = map area_key [0..<0 + length (area_names ?cfg1)]"
    unfolding s' reestructure_areas_def by (rule renumber_names)
  then show a: "area_names (config s') = map area_key [0..<length (area_names (config s)) - 1]"
    by (simp only: l1 add_0)
  have "distinct (area_names (config s'))"
    unfolding a by (rule distinct_area_keys)
  then have "get_areas s' = map (\<lambda>kv. area_of_section (snd kv)) (filter ?area (config s'))"
    by (rule get_areas_sections)
  also have "\<dots> = map area_of_section (map snd (filter ?area (config s')))"
    by (simp only: map_map comp_def)
  also have "map snd (filter ?area (config s')) = map snd (filter ?area ?cfg1)"
    unfolding s' reestructure_areas_def by (rule renumber_contents)
  also have "map area_of_section (map snd (filter ?area ?cfg1)) =
      take i (map (\<lambda>kv. area_of_section (snd kv)) ?A) @
      drop (Suc i) (map (\<lambda>kv. area_of_section (snd kv)) ?A)"
    unfolding f1 by (simp only: map_append take_map drop_map map_map comp_def)
  also have "map (\<lambda>kv. area_of_section (snd kv)) ?A = get_areas s"
    by (rule get_areas_sections [symmetric]) (rule contiguous_distinct [OF c])
  finally show "get_areas s' = take i (get_areas s) @ drop (Suc i) (get_areas s)" .
qed

subsection \<open>What a handler that returns has done\<close>

lemma create_area_persist_config:
  "config (snd (create_area_persist env Saved a areas reboot_processor s)) =
     AList.update (area_key (length areas)) (map_to_config_file_format (a\<lparr>occupancy_rules := None\<rparr>))
       (config s)"
  by (auto simp: create_area_persist_def Let_def update_config_def extract_config_def
      mkdir_parents_def
      split: prod.splits sum.splits option.splits list.splits
      dest: config_set_occupancy_rules)

lemma create_area_persist_saved:
  "fst (create_area_persist env outcome a areas reboot_processor s) = Inr (Area r) \<Longrightarrow> outcome = Saved"
  by (cases outcome)
     (auto simp: create_area_persist_def Let_def update_config_def handle_response_def
      split: prod.splits sum.splits option.splits list.splits)

lemma edit_area_persist_saved:
  "fst (edit_area_persist env outcome area_id a i cfg reboot_processor s) = Inr (Area r) \<Longrightarrow>
     outcome = Saved"
  by (cases outcome)
     (auto simp: edit_area_persist_def Let_def update_config_def handle_response_def
      split: prod.splits sum.splits option.splits list.splits)

lemma create_area_returnsD:
  assumes "fst (create_area env outcome a reboot_processor s) = Inr r"
  shows "create_area env outcome a reboot_processor s =
           create_area_persist env outcome a (get_areas s) reboot_processor s"
proof -
  have t: "id' a \<notin> set (map id' (get_areas s))"
  proof
    assume "id' a \<in> set (map id' (get_areas s))"
    from create_area_taken [OF this] assms show False
      by simp
  qed
  have u: "upper (id' a) \<noteq> ALL_AREAS"
  proof
    assume "upper (id' a) = ALL_AREAS"
    from create_area_reserved [OF t this] assms show False
      by simp
  qed
  have c: "set (split_comma (cameras a)) \<subseteq> set (map camera_id (get_cameras s))"
  proof (rule ccontr)
    assume "\<not> set (split_comma (cameras a)) \<subseteq> set (map camera_id (get_cameras s))"
    from create_area_cameras [OF t u this] assms show False
      by simp
  qed
  from t u c show ?thesis
    by (rule create_area_valid)
qed

lemma edit_area_returnsD:
  assumes "fst (edit_area env outcome area_id a reboot_processor s) = Inr r"
  shows "\<exists>i. index_of (map id' (get_areas s)) area_id = Some i \<and>
           edit_area env outcome area_id a reboot_processor s =
             edit_area_persist env outcome area_id (a\<lparr>id' := area_id\<rparr>) i (config s)
               reboot_processor s"
proof -
  have u: "upper area_id \<noteq> ALL_AREAS"
  proof
    assume "upper area_id = ALL_AREAS"
    from edit_area_reserved [OF this] assms show False
      by simp
  qed
  have m: "area_id \<in> set (map id' (get_areas s))"
  proof (rule ccontr)
    assume "area_id \<notin> set (map id' (get_areas s))"
    from edit_area_unknown [OF u this] assms show False
      by simp
  qed
  then obtain i where i: "index_of (map id' (get_areas s)) area_id = Some i"
    using index_of_None_iff [of "map id' (get_areas s)" area_id] by auto
  have c: "set (split_comma (cameras a)) \<subseteq> set (map camera_id (get_cameras s))"
  proof (rule ccontr)
    assume "\<not> set (split_comma (cameras a)) \<subseteq> set (map camera_id (get_cameras s))"
    from edit_area_cameras [OF u m this] assms show False
      by simp
  qed
  from i edit_area_valid [OF u i c] show ?thesis
    by blast
qed

lemma config_rmtree: "rmtree d s = Inr s' \<Longrightarrow> config s' = config s"
  by (auto simp: rmtree_def split: if_splits)

lemma delete_area_returnsD:
  assumes "fst (delete_area env outcome area_id reboot_processor s) = Inr (Reply 204 None)"
  shows "\<exists>i. index_of (map id' (get_areas s)) area_id = Some i \<and>
           area_key i \<in> set (map fst (config s)) \<and>
           config (snd (delete_area env outcome area_id reboot_processor s)) =
             reestructure_areas (AList.delete (area_key i) (config s))"
proof -
  from assms have u: "upper area_id \<noteq> ALL_AREAS"
    by (auto simp: delete_area_def)
  from assms u obtain i where i: "index_of (map id' (get_areas s)) area_id = Some i"
    unfolding delete_area_def Let_def edit_area_ids
    by (auto split: option.splits)
  from assms u i have k: "area_key i \<in> set (map fst (config s))"
    unfolding delete_area_def Let_def edit_area_ids
    by (auto simp: pop_def extract_config_def split: if_splits)
  from assms u i k have o: "outcome = Saved"
    unfolding delete_area_def Let_def edit_area_ids
    by (cases outcome)
       (auto simp: pop_def extract_config_def update_config_def handle_response_def
        split: prod.splits sum.splits)
  from assms u i k o
  have "config (snd (delete_area env outcome area_id reboot_processor s)) =
             reestructure_areas (AList.delete (area_key i) (config s))"
    unfolding delete_area_def Let_def edit_area_ids
    by (auto simp: pop_def extract_config_def update_config_def
        split: prod.splits sum.splits
        dest!: config_rmtree config_delete_rules)
  with i k show ?thesis
    by blast
qed

section \<open>The claims\<close>

subsection \<open>Creating an area whose id is taken\<close>

text \<open>
  C1. When the id of the new area is the id of an area that is already stored (the
  comparison is string equality, so it is case-sensitive), \<open>create_area\<close> raises the
  duplicate-id error, which the spec calls Conflict and which the code sends with status
  400 and the error type "config duplicated area", and the state it leaves is the state
  it found: the config store, the files and the directories are unchanged. The duplicate
  test comes first, so this holds whatever else the payload contains.
\<close>

theorem create_area_duplicate_id:
  assumes "id' new_area \<in> set (map id' (get_areas s))"
  shows "create_area env outcome new_area reboot_processor s =
           (Inl (HTTPException 400
              (bad_request_serializer ''Area already exists'' ''config duplicated area'')), s)"
  using assms by (rule create_area_taken)

theorem create_area_duplicate_id_witness:
  "id' (hall\<lparr>name := ''Second hall''\<rparr>) \<in> set (map id' (get_areas store0)) \<and>
   create_area env0 Saved (hall\<lparr>name := ''Second hall''\<rparr>) True store0 =
     (Inl (HTTPException 400
        (bad_request_serializer ''Area already exists'' ''config duplicated area'')), store0)"
proof -
  have h: "id' (hall\<lparr>name := ''Second hall''\<rparr>) \<in> set (map id' (get_areas store0))"
    by code_simp
  from h create_area_duplicate_id [OF h] show ?thesis
    by (rule conjI)
qed

subsection \<open>Deleting occupancy rules\<close>

text \<open>
  C2. Deleting the occupancy rules of an area. With no sidecar file the call returns
  without raising and changes nothing (\<open>delete_rules_absent\<close>), and with a file whose
  object has the key, the key is removed and the file rewritten
  (\<open>delete_rules_present\<close>). With a file whose object lacks the key, \<open>del\<close> raises
  KeyError after \<open>open(path, "w")\<close> has emptied the file
  (\<open>delete_rules_key_missing\<close>). The run below deletes the rules of area \<open>A0\<close>
  twice: the first call leaves the file with its other key, the second raises and
  leaves the file empty.
\<close>

theorem delete_area_occupancy_rules_twice:
  "fst (delete_area_occupancy_rules env0 ''A0'' store0) = Inr None \<and>
   files (snd (delete_area_occupancy_rules env0 ''A0'' store0)) [''cfg'', ''A0'', ''config.json''] =
     Some (Json_file (JObj [(''note'', JStr ''keep'')])) \<and>
   fst (delete_area_occupancy_rules env0 ''A0''
          (snd (delete_area_occupancy_rules env0 ''A0'' store0))) =
     Inl (KeyError ''occupancy_rules'') \<and>
   files (snd (delete_area_occupancy_rules env0 ''A0''
          (snd (delete_area_occupancy_rules env0 ''A0'' store0)))) [''cfg'', ''A0'', ''config.json''] =
     Some Empty_file"
  by code_simp

subsection \<open>The virtual area of all cameras\<close>

text \<open>
  C3. When the upper-cased id is the reserved token, \<open>get_area\<close> answers with the
  synthesized area: its cameras field is the comma-joined list of the ids of all
  registered cameras, its three numeric fields are -1 and its two flags are false. The
  answer is computed from the camera list alone: it does not depend on the stored areas,
  on the files or on the environment, and \<open>get_area\<close> returns no new state, so nothing
  is persisted.
\<close>

theorem get_area_all:
  assumes "upper area_id = ALL_AREAS"
  shows "get_area env area_id s =
           Inr \<lparr>id' = ALL_AREAS,
                name = ALL_AREAS,
                violation_threshold = - 1,
                notify_every_minutes = - 1,
                emails = [],
                enable_slack_notifications = False,
                daily_report = False,
                daily_report_time = ''N/A'',
                occupancy_threshold = - 1,
                cameras = join_comma (map camera_id (get_cameras s)),
                occupancy_rules = None\<rparr>"
  using assms by (simp add: get_area_def all_cameras_area_def get_all_cameras_ids_def)

theorem get_area_all_witness:
  "upper ''aLl'' = ALL_AREAS \<and>
   get_area env0 ''aLl'' store0 =
     Inr \<lparr>id' = ''ALL'', name = ''ALL'', violation_threshold = - 1,
          notify_every_minutes = - 1, emails = [], enable_slack_notifications = False,
          daily_report = False, daily_report_time = ''N/A'', occupancy_threshold = - 1,
          cameras = ''cam0,cam1'', occupancy_rules = None\<rparr>"
proof -
  have h: "upper ''aLl'' = ALL_AREAS"
    by code_simp
  have c: "join_comma (map camera_id (get_cameras store0)) = ''cam0,cam1''"
    by code_simp
  from h get_area_all [OF h, of env0 store0] c show ?thesis
    by (simp add: ALL_AREAS_def)
qed

subsection \<open>Saving occupancy rules\<close>

text \<open>
  C7. Saving the rules of an area reads, changes and writes back the sidecar document.
  When nothing exists at the sidecar path, the call succeeds, the directory that holds
  the path (the path without its last component) is among the directories afterwards,
  and the file holds the object with the single key \<open>occupancy_rules\<close>. When the file
  holds a JSON object, the call succeeds and the file holds an object in which
  \<open>occupancy_rules\<close> is the new rules, every other key has the value it had, and the
  keys keep their order (a new key goes last). The directories afterwards are the
  former ones and the parent directory with its ancestors; no other file and no section
  of the config store is touched.
\<close>

theorem set_occupancy_rules_read_modify_write:
  assumes "set_occupancy_rules env area_id rules s = (r, s')"
    and "p = get_area_config_path env area_id"
  shows "(\<not> path_exists s p \<longrightarrow>
            r = Inr () \<and> butlast p \<in> dirs s' \<and>
            files s' p = Some (Json_file (JObj [(''occupancy_rules'', to_store_json rules)])))
       \<and> (\<forall>kvs. files s p = Some (Json_file (JObj kvs)) \<longrightarrow>
            r = Inr () \<and>
            (\<exists>kvs'. files s' p = Some (Json_file (JObj kvs')) \<and>
               map_of kvs' ''occupancy_rules'' = Some (to_store_json rules) \<and>
               (\<forall>k. k \<noteq> ''occupancy_rules'' \<longrightarrow> map_of kvs' k = map_of kvs k) \<and>
               map fst kvs' =
                 (if ''occupancy_rules'' \<in> set (map fst kvs) then map fst kvs
                  else map fst kvs @ [''occupancy_rules''])))
       \<and> (\<forall>q. q \<noteq> p \<longrightarrow> files s' q = files s q)
       \<and> dirs s' = dirs s \<union> set (prefixes (butlast p))
       \<and> config s' = config s"
proof (intro conjI impI allI)
  assume a: "\<not> path_exists s p"
  with assms set_occupancy_rules_absent [of s env area_id rules]
  have s': "s' = json_dump (JObj [(''occupancy_rules'', JArr rules)]) p
                  (open_w p (mkdir_parents (dirname p) s))" and r: "r = Inr ()"
    by simp_all
  show "r = Inr ()" by (rule r)
  from assms have "dirs s' = dirs s \<union> set (prefixes (butlast p))"
    by (simp add: dirs_set_occupancy_rules)
  then show "butlast p \<in> dirs s'"
    by (simp add: in_set_prefixes)
  show "files s' p = Some (Json_file (JObj [(''occupancy_rules'', to_store_json rules)]))"
    by (simp add: s' json_dump_def to_store_json_def)
next
  fix kvs assume a: "files s p = Some (Json_file (JObj kvs))"
  with assms set_occupancy_rules_object [of s env area_id kvs rules]
  have s': "s' = json_dump (JObj (AList.update ''occupancy_rules'' (JArr rules) kvs)) p
                  (open_w p (mkdir_parents (dirname p) s))" and r: "r = Inr ()"
    by simp_all
  show "r = Inr ()" by (rule r)
  show "\<exists>kvs'. files s' p = Some (Json_file (JObj kvs')) \<and>
               map_of kvs' ''occupancy_rules'' = Some (to_store_json rules) \<and>
               (\<forall>k. k \<noteq> ''occupancy_rules'' \<longrightarrow> map_of kvs' k = map_of kvs k) \<and>
               map fst kvs' =
                 (if ''occupancy_rules'' \<in> set (map fst kvs) then map fst kvs
                  else map fst kvs @ [''occupancy_rules''])"
    by (rule exI [of _ "AList.update ''occupancy_rules'' (JArr rules) kvs"])
       (simp add: s' json_dump_def to_store_json_def update_conv' update_keys)
next
  fix q assume "q \<noteq> p"
  with assms show "files s' q = files s q"
    by (auto simp: set_occupancy_rules_def Let_def json_dump_def open_w_def mkdir_parents_def
        split: if_splits sum.splits)
next
  from assms show "dirs s' = dirs s \<union> set (prefixes (butlast p))"
    by (simp add: dirs_set_occupancy_rules)
next
  from assms show "config s' = config s"
    by (auto simp: set_occupancy_rules_def Let_def json_dump_def open_w_def mkdir_parents_def
        split: if_splits sum.splits)
qed

theorem set_occupancy_rules_read_modify_write_witness:
  "\<not> path_exists store0 [''cfg'', ''A2'', ''config.json''] \<and>
   [''cfg'', ''A2''] \<notin> dirs store0 \<and>
   fst (set_occupancy_rules env0 ''A2'' [rule0] store0) = Inr () \<and>
   [''cfg'', ''A2''] \<in> dirs (snd (set_occupancy_rules env0 ''A2'' [rule0] store0)) \<and>
   files (snd (set_occupancy_rules env0 ''A2'' [rule0] store0)) [''cfg'', ''A2'', ''config.json''] =
     Some (Json_file (JObj [(''occupancy_rules'', JArr [rule0])])) \<and>
   files store0 [''cfg'', ''A0'', ''config.json''] =
     Some (Json_file (JObj [(''note'', JStr ''keep''), (''occupancy_rules'', JArr [rule0])])) \<and>
   fst (set_occupancy_rules env0 ''A0'' [rule0, rule0] store0) = Inr () \<and>
   files (snd (set_occupancy_rules env0 ''A0'' [rule0, rule0] store0)) [''cfg'', ''A0'', ''config.json''] =
     Some (Json_file (JObj [(''note'', JStr ''keep''), (''occupancy_rules'', JArr [rule0, rule0])]))"
proof -
  let ?p2 = "[''cfg'', ''A2'', ''config.json'']" and ?p0 = "[''cfg'', ''A0'', ''config.json'']"
  have p2: "?p2 = get_area_config_path env0 ''A2''" and p0: "?p0 = get_area_config_path env0 ''A0''"
    by (simp_all add: env0_def)
  have h2: "\<not> path_exists store0 ?p2" and n2: "[''cfg'', ''A2''] \<notin> dirs store0"
    by code_simp+
  have h0: "files store0 ?p0 =
      Some (Json_file (JObj [(''note'', JStr ''keep''), (''occupancy_rules'', JArr [rule0])]))"
    by (simp add: store0_def)
  from set_occupancy_rules_read_modify_write
         [of env0 "''A2''" "[rule0]" store0 _ _ ?p2, OF surjective_pairing p2] h2
  have a: "fst (set_occupancy_rules env0 ''A2'' [rule0] store0) = Inr ()"
    and b: "butlast ?p2 \<in> dirs (snd (set_occupancy_rules env0 ''A2'' [rule0] store0))"
    and c: "files (snd (set_occupancy_rules env0 ''A2'' [rule0] store0)) ?p2 =
              Some (Json_file (JObj [(''occupancy_rules'', to_store_json [rule0])]))"
    by blast+
  from set_occupancy_rules_read_modify_write
         [of env0 "''A0''" "[rule0, rule0]" store0 _ _ ?p0, OF surjective_pairing p0] h0
  have d: "fst (set_occupancy_rules env0 ''A0'' [rule0, rule0] store0) = Inr ()"
    by blast
  have e: "files (snd (set_occupancy_rules env0 ''A0'' [rule0, rule0] store0)) ?p0 =
     Some (Json_file (JObj [(''note'', JStr ''keep''), (''occupancy_rules'', JArr [rule0, rule0])]))"
    by code_simp
  from h2 n2 a b c h0 d e show ?thesis
    by (simp add: to_store_json_def)
qed

subsection \<open>The two stores are not written atomically\<close>




subsection \<open>Payloads that name unknown cameras\<close>

text \<open>
  C5, amended. The claim as written fails: the camera check is not the first check, so
  a create whose id is taken is answered with the duplicate-id error and an update of an
  unknown area with "area does not exist", whatever cameras the payload names; the run
  that follows the theorem shows both. What holds: a create whose id is free and not
  reserved, and an update whose path id is not reserved and names a stored area, fail
  with status 404 when the payload names at least one camera id that is not in the
  camera store; the detail carries exactly the set of the named ids that are not stored,
  and the state is unchanged, so no section is written.
\<close>

theorem missing_cameras_not_found:
  assumes "\<not> set (split_comma (cameras a)) \<subseteq> set (map camera_id (get_cameras s))"
  shows "(id' a \<notin> set (map id' (get_areas s)) \<and> upper (id' a) \<noteq> ALL_AREAS \<longrightarrow>
            create_area env outcome a reboot_processor s =
              (Inl (HTTPException 404 (Cameras_do_not_exist
                 (set (split_comma (cameras a)) - set (map camera_id (get_cameras s))))), s))
       \<and> (upper area_id \<noteq> ALL_AREAS \<and> area_id \<in> set (map id' (get_areas s)) \<longrightarrow>
            edit_area env outcome area_id a reboot_processor s =
              (Inl (HTTPException 404 (Cameras_do_not_exist
                 (set (split_comma (cameras a)) - set (map camera_id (get_cameras s))))), s))"
  using assms by (simp add: create_area_cameras edit_area_cameras)

theorem missing_cameras_not_found_witness:
  "\<not> set (split_comma (cameras (yard\<lparr>cameras := ''cam1,cam9,cam7''\<rparr>)))
        \<subseteq> set (map camera_id (get_cameras store0)) \<and>
   id' (yard\<lparr>cameras := ''cam1,cam9,cam7''\<rparr>) \<notin> set (map id' (get_areas store0)) \<and>
   upper (id' (yard\<lparr>cameras := ''cam1,cam9,cam7''\<rparr>)) \<noteq> ALL_AREAS \<and>
   create_area env0 Saved (yard\<lparr>cameras := ''cam1,cam9,cam7''\<rparr>) True store0 =
     (Inl (HTTPException 404 (Cameras_do_not_exist {''cam9'', ''cam7''})), store0) \<and>
   upper ''A0'' \<noteq> ALL_AREAS \<and> ''A0'' \<in> set (map id' (get_areas store0)) \<and>
   edit_area env0 Saved ''A0'' (yard\<lparr>cameras := ''cam1,cam9,cam7''\<rparr>) True store0 =
     (Inl (HTTPException 404 (Cameras_do_not_exist {''cam9'', ''cam7''})), store0)"
proof -
  let ?a = "yard\<lparr>cameras := ''cam1,cam9,cam7''\<rparr>"
  have h: "\<not> set (split_comma (cameras ?a)) \<subseteq> set (map camera_id (get_cameras store0))"
    by code_simp
  have c1: "id' ?a \<notin> set (map id' (get_areas store0))" and c2: "upper (id' ?a) \<noteq> ALL_AREAS"
    and e1: "upper ''A0'' \<noteq> ALL_AREAS" and e2: "''A0'' \<in> set (map id' (get_areas store0))"
    by code_simp+
  have d: "set (split_comma (cameras ?a)) - set (map camera_id (get_cameras store0)) =
             {''cam9'', ''cam7''}"
    by code_simp
  from missing_cameras_not_found [OF h, of env0 Saved True "''A0''"] c1 c2 e1 e2
  have k1: "create_area env0 Saved ?a True store0 =
     (Inl (HTTPException 404 (Cameras_do_not_exist {''cam9'', ''cam7''})), store0)"
    and k2: "edit_area env0 Saved ''A0'' ?a True store0 =
     (Inl (HTTPException 404 (Cameras_do_not_exist {''cam9'', ''cam7''})), store0)"
    unfolding d by blast+
  show ?thesis
    by (intro conjI h c1 c2 k1 e1 e2 k2)
qed

theorem missing_cameras_counterexample:
  "set (split_comma (cameras (hall\<lparr>cameras := ''cam0,cam9''\<rparr>)))
      - set (map camera_id (get_cameras store0)) = {''cam9''} \<and>
   create_area env0 Saved (hall\<lparr>cameras := ''cam0,cam9''\<rparr>) True store0 =
     (Inl (HTTPException 400
        (bad_request_serializer ''Area already exists'' ''config duplicated area'')), store0) \<and>
   edit_area env0 Saved ''A9'' (hall\<lparr>cameras := ''cam0,cam9''\<rparr>) True store0 =
     (Inl (HTTPException 404 (Area_does_not_exist ''A9'')), store0)"
proof -
  let ?a = "hall\<lparr>cameras := ''cam0,cam9''\<rparr>"
  have d: "set (split_comma (cameras ?a)) - set (map camera_id (get_cameras store0)) = {''cam9''}"
    by code_simp
  have t: "id' ?a \<in> set (map id' (get_areas store0))"
    by code_simp
  have u: "upper ''A9'' \<noteq> ALL_AREAS" and n: "''A9'' \<notin> set (map id' (get_areas store0))"
    by code_simp+
  show ?thesis
    by (intro conjI d create_area_taken [OF t] edit_area_unknown [OF u n])
qed

subsection \<open>The order of the checks of an update\<close>




subsection \<open>The id of an updated area\<close>

text \<open>
  C8. The id field of the body of an update has no effect: \<open>edit_area\<close> overwrites it
  with the path parameter before it is read, so two bodies that differ only in their id
  give the same answer and the same state. Whatever an update returns without raising
  carries the path id: the reloaded area, or the section in the non-success reply. The
  section saved by an update that passes its checks has the path id in its \<open>Id\<close> field.
\<close>

theorem edit_area_keeps_path_id:
  "edit_area env outcome area_id (a\<lparr>id' := x\<rparr>) reboot_processor s =
     edit_area env outcome area_id a reboot_processor s
   \<and> (fst (edit_area env outcome area_id a reboot_processor s) = Inr r \<longrightarrow>
        (\<exists>y. r = Area (Some y) \<and> id' y = area_id) \<or>
        (\<exists>sec. r = Handled (Non_success (Some sec)) \<and> map_of sec ''Id'' = Some (VStr area_id)))
   \<and> (upper area_id \<noteq> ALL_AREAS \<and> index_of (map id' (get_areas s)) area_id = Some i \<and>
       set (split_comma (cameras a)) \<subseteq> set (map camera_id (get_cameras s)) \<longrightarrow>
        (\<exists>sec. map_of (config (snd (edit_area env Saved area_id a reboot_processor s))) (area_key i)
                 = Some sec \<and> map_of sec ''Id'' = Some (VStr area_id)))"
proof (intro conjI impI)
  show "edit_area env outcome area_id (a\<lparr>id' := x\<rparr>) reboot_processor s =
     edit_area env outcome area_id a reboot_processor s"
    by (simp add: edit_area_def)
next
  assume r: "fst (edit_area env outcome area_id a reboot_processor s) = Inr r"
  have u: "upper area_id \<noteq> ALL_AREAS"
  proof
    assume "upper area_id = ALL_AREAS"
    from edit_area_reserved [OF this] r show False
      by simp
  qed
  have m: "area_id \<in> set (map id' (get_areas s))"
  proof (rule ccontr)
    assume "area_id \<notin> set (map id' (get_areas s))"
    from edit_area_unknown [OF u this] r show False
      by simp
  qed
  then obtain i where i: "index_of (map id' (get_areas s)) area_id = Some i"
    using index_of_None_iff [of "map id' (get_areas s)" area_id] by auto
  have c: "set (split_comma (cameras a)) \<subseteq> set (map camera_id (get_cameras s))"
  proof (rule ccontr)
    assume "\<not> set (split_comma (cameras a)) \<subseteq> set (map camera_id (get_cameras s))"
    from edit_area_cameras [OF u m this] r show False
      by simp
  qed
  from u i c have v: "edit_area env outcome area_id a reboot_processor s =
      edit_area_persist env outcome area_id (a\<lparr>id' := area_id\<rparr>) i (config s) reboot_processor s"
    by (rule edit_area_valid)
  from r have "fst (edit_area_persist env outcome area_id (a\<lparr>id' := area_id\<rparr>) i (config s)
      reboot_processor s) = Inr r"
    by (simp add: v)
  from edit_area_persist_returned [OF this]
  show "(\<exists>y. r = Area (Some y) \<and> id' y = area_id) \<or>
        (\<exists>sec. r = Handled (Non_success (Some sec)) \<and> map_of sec ''Id'' = Some (VStr area_id))"
    by (auto simp: map_to_config_file_format_def)
next
  assume h: "upper area_id \<noteq> ALL_AREAS \<and> index_of (map id' (get_areas s)) area_id = Some i \<and>
       set (split_comma (cameras a)) \<subseteq> set (map camera_id (get_cameras s))"
  then have v: "edit_area env Saved area_id a reboot_processor s =
      edit_area_persist env Saved area_id (a\<lparr>id' := area_id\<rparr>) i (config s) reboot_processor s"
    by (simp add: edit_area_valid)
  show "\<exists>sec. map_of (config (snd (edit_area env Saved area_id a reboot_processor s))) (area_key i)
                 = Some sec \<and> map_of sec ''Id'' = Some (VStr area_id)"
    by (simp add: v edit_area_persist_config update_conv' map_to_config_file_format_def)
qed

theorem edit_area_keeps_path_id_witness:
  "edit_area env0 Saved ''A1'' (yard\<lparr>id' := ''A7''\<rparr>) True store0 =
     edit_area env0 Saved ''A1'' yard True store0 \<and>
   fst (edit_area env0 Saved ''A1'' yard True store0) = Inr (Area (Some (yard\<lparr>id' := ''A1''\<rparr>))) \<and>
   ((\<exists>y. Area (Some (yard\<lparr>id' := ''A1''\<rparr>)) = Area (Some y) \<and> id' y = ''A1'') \<or>
    (\<exists>sec. Area (Some (yard\<lparr>id' := ''A1''\<rparr>)) = Handled (Non_success (Some sec)) \<and>
       map_of sec ''Id'' = Some (VStr ''A1''))) \<and>
   upper ''A1'' \<noteq> ALL_AREAS \<and>
   index_of (map id' (get_areas store0)) ''A1'' = Some 1 \<and>
   set (split_comma (cameras yard)) \<subseteq> set (map camera_id (get_cameras store0)) \<and>
   (\<exists>sec. map_of (config (snd (edit_area env0 Saved ''A1'' yard True store0))) (area_key 1) = Some sec \<and>
      map_of sec ''Id'' = Some (VStr ''A1''))"
proof -
  note t = edit_area_keeps_path_id [where env = env0 and outcome = Saved and area_id = "''A1''"
      and a = yard and x = "''A7''" and reboot_processor = True and s = store0
      and r = "Area (Some (yard\<lparr>id' := ''A1''\<rparr>))" and i = 1]
  have r: "fst (edit_area env0 Saved ''A1'' yard True store0) = Inr (Area (Some (yard\<lparr>id' := ''A1''\<rparr>)))"
    by code_simp
  have h4: "upper ''A1'' \<noteq> ALL_AREAS"
    and h7: "index_of (map id' (get_areas store0)) ''A1'' = Some 1"
    and h8: "set (split_comma (cameras yard)) \<subseteq> set (map camera_id (get_cameras store0))"
    by code_simp+
  from t have k1: "edit_area env0 Saved ''A1'' (yard\<lparr>id' := ''A7''\<rparr>) True store0 =
     edit_area env0 Saved ''A1'' yard True store0"
    by (rule conjunct1)
  from t r have k2: "(\<exists>y. Area (Some (yard\<lparr>id' := ''A1''\<rparr>)) = Area (Some y) \<and> id' y = ''A1'') \<or>
    (\<exists>sec. Area (Some (yard\<lparr>id' := ''A1''\<rparr>)) = Handled (Non_success (Some sec)) \<and>
       map_of sec ''Id'' = Some (VStr ''A1''))"
    by blast
  from t h4 h7 h8
  have k3: "\<exists>sec. map_of (config (snd (edit_area env0 Saved ''A1'' yard True store0))) (area_key 1) = Some sec \<and>
      map_of sec ''Id'' = Some (VStr ''A1'')"
    by blast
  show ?thesis
    by (intro conjI k1 r k2 h4 h7 h8 k3)
qed

subsection \<open>An update with an empty list of rules\<close>




subsection \<open>The numbering of the area sections is kept\<close>

text \<open>
  C4. In a store whose area sections are named \<open>Area_0\<close>, \<open>Area_1\<close>, ... without a
  gap and in this order, every mutating handler that succeeds leaves such a store. A
  create that returns the new area has appended one section, named with the number of
  areas there were. An update that returns the area has changed no section name. A
  delete that answers 204 has removed the area at the position \<open>i\<close> of the id: listing
  the areas afterwards gives the former list without its element \<open>i\<close>, in the former
  order, and the sections are named \<open>Area_0\<close> to \<open>Area_(n-2)\<close>. The renumbering is
  that of \<open>reestructure_areas\<close> as the spec describes it.
\<close>

theorem area_indices_stay_contiguous:
  assumes "areas_contiguous (config s)"
  shows "(fst (create_area env outcome a reboot_processor s) = Inr (Area r) \<longrightarrow>
            config (snd (create_area env outcome a reboot_processor s)) =
              config s @ [(area_key (length (get_areas s)),
                           map_to_config_file_format (a\<lparr>occupancy_rules := None\<rparr>))] \<and>
            areas_contiguous (config (snd (create_area env outcome a reboot_processor s))))
       \<and> (fst (edit_area env outcome area_id a reboot_processor s) = Inr (Area r) \<longrightarrow>
            area_names (config (snd (edit_area env outcome area_id a reboot_processor s))) =
              area_names (config s) \<and>
            areas_contiguous (config (snd (edit_area env outcome area_id a reboot_processor s))))
       \<and> (fst (delete_area env outcome area_id reboot_processor s) = Inr (Reply 204 None) \<longrightarrow>
            (\<exists>i. index_of (map id' (get_areas s)) area_id = Some i \<and>
                 get_areas (snd (delete_area env outcome area_id reboot_processor s)) =
                   take i (get_areas s) @ drop (Suc i) (get_areas s)) \<and>
            area_names (config (snd (delete_area env outcome area_id reboot_processor s))) =
              map area_key [0..<length (get_areas s) - 1] \<and>
            areas_contiguous (config (snd (delete_area env outcome area_id reboot_processor s))))"
proof (intro conjI impI)
  assume r: "fst (create_area env outcome a reboot_processor s) = Inr (Area r)"
  then have v: "create_area env outcome a reboot_processor s =
      create_area_persist env outcome a (get_areas s) reboot_processor s"
    by (rule create_area_returnsD)
  with r have o: "outcome = Saved"
    by (simp add: create_area_persist_saved)
  have n: "length (get_areas s) = length (area_names (config s))"
    by (rule length_get_areas)
  from assms have "area_key (length (get_areas s)) \<notin> set (map fst (config s))"
    unfolding n by (rule contiguous_fresh)
  then have upd: "AList.update (area_key (length (get_areas s)))
        (map_to_config_file_format (a\<lparr>occupancy_rules := None\<rparr>)) (config s) =
      config s @ [(area_key (length (get_areas s)),
                   map_to_config_file_format (a\<lparr>occupancy_rules := None\<rparr>))]"
    by (rule update_append)
  from v have v': "create_area env Saved a reboot_processor s =
      create_area_persist env Saved a (get_areas s) reboot_processor s"
    unfolding o .
  show c: "config (snd (create_area env outcome a reboot_processor s)) =
      config s @ [(area_key (length (get_areas s)),
                   map_to_config_file_format (a\<lparr>occupancy_rules := None\<rparr>))]"
    unfolding o v' create_area_persist_config by (rule upd)
  from assms show "areas_contiguous (config (snd (create_area env outcome a reboot_processor s)))"
    unfolding c n by (rule contiguous_append)
next
  assume r: "fst (edit_area env outcome area_id a reboot_processor s) = Inr (Area r)"
  from edit_area_returnsD [OF r] obtain i
    where i: "index_of (map id' (get_areas s)) area_id = Some i"
      and v: "edit_area env outcome area_id a reboot_processor s =
             edit_area_persist env outcome area_id (a\<lparr>id' := area_id\<rparr>) i (config s)
               reboot_processor s"
    by blast
  from r v have o: "outcome = Saved"
    by (simp add: edit_area_persist_saved)
  from i have "i < length (area_names (config s))"
    using index_of_SomeD [of "map id' (get_areas s)" area_id i] by (simp add: length_get_areas)
  then have u: "area_names (AList.update (area_key i)
        (map_to_config_file_format (a\<lparr>id' := area_id\<rparr>\<lparr>occupancy_rules := None\<rparr>)) (config s)) =
      area_names (config s)"
    by (rule contiguous_update_in_place [OF assms])
  from v have v': "edit_area env Saved area_id a reboot_processor s =
             edit_area_persist env Saved area_id (a\<lparr>id' := area_id\<rparr>) i (config s)
               reboot_processor s"
    unfolding o .
  show e: "area_names (config (snd (edit_area env outcome area_id a reboot_processor s))) =
      area_names (config s)"
    unfolding o v' edit_area_persist_config by (rule u)
  from assms show "areas_contiguous (config (snd (edit_area env outcome area_id a reboot_processor s)))"
    by (simp add: areas_contiguous_def e)
next
  assume r: "fst (delete_area env outcome area_id reboot_processor s) = Inr (Reply 204 None)"
  let ?s' = "snd (delete_area env outcome area_id reboot_processor s)"
  from delete_area_returnsD [OF r] obtain i
    where i: "index_of (map id' (get_areas s)) area_id = Some i"
      and c: "config ?s' = reestructure_areas (AList.delete (area_key i) (config s))"
    by blast
  from i have l: "i < length (area_names (config s))"
    using index_of_SomeD [of "map id' (get_areas s)" area_id i] by (simp add: length_get_areas)
  note d = contiguous_delete_renumber [OF assms l c]
  from i d(2) show "\<exists>i. index_of (map id' (get_areas s)) area_id = Some i \<and>
                 get_areas ?s' = take i (get_areas s) @ drop (Suc i) (get_areas s)"
    by blast
  from d(1) show n: "area_names (config ?s') = map area_key [0..<length (get_areas s) - 1]"
    by (simp add: length_get_areas)
  then show "areas_contiguous (config ?s')"
    by (simp add: areas_contiguous_def)
qed

theorem area_indices_stay_contiguous_witness:
  "areas_contiguous (config store0) \<and>
   fst (create_area env0 Saved yard True store0) = Inr (Area (Some yard)) \<and>
   config (snd (create_area env0 Saved yard True store0)) =
     config store0 @ [(area_key (length (get_areas store0)),
                       map_to_config_file_format (yard\<lparr>occupancy_rules := None\<rparr>))] \<and>
   areas_contiguous (config (snd (create_area env0 Saved yard True store0))) \<and>
   area_names (config (snd (create_area env0 Saved yard True store0))) =
     [''Area_0'', ''Area_1'', ''Area_2''] \<and>
   fst (edit_area env0 Saved ''A1'' yard True store0) = Inr (Area (Some (yard\<lparr>id' := ''A1''\<rparr>))) \<and>
   area_names (config (snd (edit_area env0 Saved ''A1'' yard True store0))) =
     area_names (config store0) \<and>
   areas_contiguous (config (snd (edit_area env0 Saved ''A1'' yard True store0))) \<and>
   fst (delete_area env0 Saved ''A0'' True store0) = Inr (Reply 204 None) \<and>
   (\<exists>i. index_of (map id' (get_areas store0)) ''A0'' = Some i \<and>
        get_areas (snd (delete_area env0 Saved ''A0'' True store0)) =
          take i (get_areas store0) @ drop (Suc i) (get_areas store0)) \<and>
   area_names (config (snd (delete_area env0 Saved ''A0'' True store0))) =
     map area_key [0..<length (get_areas store0) - 1] \<and>
   areas_contiguous (config (snd (delete_area env0 Saved ''A0'' True store0))) \<and>
   config (snd (delete_area env0 Saved ''A0'' True store0)) =
     [(''App'', [(''Resolution'', VStr ''640,480'')]),
      (''Source_0'', [(''Id'', VStr ''cam0'')]),
      (''Area_0'', map_to_config_file_format hall),
      (''Source_1'', [(''Id'', VStr ''cam1'')])]"
proof -
  have h: "areas_contiguous (config store0)"
    by code_simp
  have c: "fst (create_area env0 Saved yard True store0) = Inr (Area (Some yard))"
    by code_simp
  have e: "fst (edit_area env0 Saved ''A1'' yard True store0) = Inr (Area (Some (yard\<lparr>id' := ''A1''\<rparr>)))"
    by code_simp
  have d: "fst (delete_area env0 Saved ''A0'' True store0) = Inr (Reply 204 None)"
    by code_simp
  have n: "area_names (config (snd (create_area env0 Saved yard True store0))) =
     [''Area_0'', ''Area_1'', ''Area_2'']"
    by code_simp
  have g: "config (snd (delete_area env0 Saved ''A0'' True store0)) =
     [(''App'', [(''Resolution'', VStr ''640,480'')]),
      (''Source_0'', [(''Id'', VStr ''cam0'')]),
      (''Area_0'', map_to_config_file_format hall),
      (''Source_1'', [(''Id'', VStr ''cam1'')])]"
    by code_simp
  note t1 = area_indices_stay_contiguous [OF h, where env = env0 and outcome = Saved and a = yard
      and reboot_processor = True and r = "Some yard" and area_id = "''A0''"]
  note t2 = area_indices_stay_contiguous [OF h, where env = env0 and outcome = Saved and a = yard
      and reboot_processor = True and r = "Some (yard\<lparr>id' := ''A1''\<rparr>)" and area_id = "''A1''"]
  from t1 c have c1: "config (snd (create_area env0 Saved yard True store0)) =
     config store0 @ [(area_key (length (get_areas store0)),
                       map_to_config_file_format (yard\<lparr>occupancy_rules := None\<rparr>))]"
    and c2: "areas_contiguous (config (snd (create_area env0 Saved yard True store0)))"
    by blast+
  from t2 e have e1: "area_names (config (snd (edit_area env0 Saved ''A1'' yard True store0))) =
     area_names (config store0)"
    and e2: "areas_contiguous (config (snd (edit_area env0 Saved ''A1'' yard True store0)))"
    by blast+
  from t1 d have d1: "\<exists>i. index_of (map id' (get_areas store0)) ''A0'' = Some i \<and>
        get_areas (snd (delete_area env0 Saved ''A0'' True store0)) =
          take i (get_areas store0) @ drop (Suc i) (get_areas store0)"
    and d2: "area_names (config (snd (delete_area env0 Saved ''A0'' True store0))) =
     map area_key [0..<length (get_areas store0) - 1]"
    and d3: "areas_contiguous (config (snd (delete_area env0 Saved ''A0'' True store0)))"
    by blast+
  show ?thesis
    by (intro conjI h c c1 c2 n e e1 e2 d d1 d2 d3 g)
qed

end
